theory Spec2Isabelle
  imports Complex_Main
begin

section \<open>Python values and builtins used by the audit service\<close>

text \<open>
  The service (\<^verbatim>\<open>src/api/index.py\<close>) receives the value that
  \<^verbatim>\<open>request.get_json()\<close> decoded from the request body and runs three functions
  on it: \<^verbatim>\<open>check_for_banned_keywords\<close>, \<^verbatim>\<open>check_refund_amount\<close> and
  \<^verbatim>\<open>audit_request\<close>. They are embedded below as HOL functions over a datatype of
  decoded JSON values. An exception raised by Python is the \<open>Inl\<close> branch of a sum.

  Scope of the embedding. A Python string is a \<^typ>\<open>string\<close>; a \<^typ>\<open>char\<close> stands for
  the code point of the same number, so strings range over the code points 0 to 255.
  A mapping is an association list in insertion order (a decoded JSON object has
  pairwise distinct keys; lookups take the first binding of a key). A Python float is
  its exact rational value, or one of the special values. The interpreter's recursion
  limit is not modelled.
\<close>

datatype py_error = TypeError | ValueError | OverflowError | KeyError

datatype pyfloat = Finite rat | NegZero | PosInf | NegInf | NaN

datatype json =
    JNull
  | JBool bool
  | JInt int
  | JFloat pyfloat
  | JStr string
  | JList "json list"
  | JDict "(string \<times> json) list"

subsection \<open>Strings: \<^verbatim>\<open>str.lower\<close>, the \<^verbatim>\<open>in\<close> operator, \<^verbatim>\<open>repr\<close>\<close>

definition upper_ascii :: string where
  "upper_ascii = ''ABCDEFGHIJKLMNOPQRSTUVWXYZ''"

definition lower_ascii :: string where
  "lower_ascii = ''abcdefghijklmnopqrstuvwxyz''"

definition lower_char :: "char \<Rightarrow> char" where
  "lower_char c =
     (case map_of (zip upper_ascii lower_ascii) c of
        Some l \<Rightarrow> l
      | None \<Rightarrow>
          (let n = (of_char c :: nat)
           in if 192 \<le> n \<and> n \<le> 222 \<and> n \<noteq> 215 then char_of (n + 32) else c))"

definition lower :: "string \<Rightarrow> string" where
  "lower s = map lower_char s"

fun startswith :: "string \<Rightarrow> string \<Rightarrow> bool" where
  "startswith s [] = True"
| "startswith [] (p # ps) = False"
| "startswith (c # cs) (p # ps) = (c = p \<and> startswith cs ps)"

text \<open>\<open>str_contains s sub\<close> is Python's \<^verbatim>\<open>sub in s\<close> on two strings.\<close>

fun str_contains :: "string \<Rightarrow> string \<Rightarrow> bool" where
  "str_contains [] sub = (sub = [])"
| "str_contains (c # cs) sub = (startswith (c # cs) sub \<or> str_contains cs sub)"

fun join :: "string \<Rightarrow> string list \<Rightarrow> string" where
  "join sep [] = []"
| "join sep [x] = x"
| "join sep (x # y # ys) = x @ sep @ join sep (y # ys)"

definition digit_char :: "nat \<Rightarrow> char" where
  "digit_char d = ''0123456789abcdef'' ! d"

fun nat_digits :: "nat \<Rightarrow> string" where
  "nat_digits n =
     (if n < 10 then [digit_char n] else nat_digits (n div 10) @ [digit_char (n mod 10)])"

declare nat_digits.simps [simp del]

definition repr_int :: "int \<Rightarrow> string" where
  "repr_int n = (if n < 0 then ''-'' @ nat_digits (nat (- n)) else nat_digits (nat n))"

definition printable :: "char \<Rightarrow> bool" where
  "printable c = (let n = (of_char c :: nat) in \<not> (n < 32 \<or> (127 \<le> n \<and> n \<le> 160) \<or> n = 173))"

definition repr_char :: "char \<Rightarrow> char \<Rightarrow> string" where
  "repr_char quote c =
     (if c = quote \<or> c = CHR 0x5C then [CHR 0x5C, c]
      else if c = CHR 0x09 then [CHR 0x5C, CHR ''t'']
      else if c = CHR 0x0A then [CHR 0x5C, CHR ''n'']
      else if c = CHR 0x0D then [CHR 0x5C, CHR ''r'']
      else if \<not> printable c
        then [CHR 0x5C, CHR ''x'', digit_char (of_char c div 16), digit_char (of_char c mod 16)]
      else [c])"

definition repr_str :: "string \<Rightarrow> string" where
  "repr_str s =
     (let quote = (if CHR 0x27 \<in> set s \<and> CHR 0x22 \<notin> set s then CHR 0x22 else CHR 0x27)
      in [quote] @ concat (map (repr_char quote) s) @ [quote])"

subsection \<open>Floats: rounding to a double, \<^verbatim>\<open>float()\<close>, \<^verbatim>\<open>repr\<close>, \<^verbatim>\<open>.2f\<close>\<close>

definition pow2 :: "int \<Rightarrow> rat" where
  "pow2 e = (if 0 \<le> e then 2 ^ nat e else 1 / 2 ^ nat (- e))"

definition pow10 :: "int \<Rightarrow> rat" where
  "pow10 e = (if 0 \<le> e then 10 ^ nat e else 1 / 10 ^ nat (- e))"

fun bit_length :: "nat \<Rightarrow> nat" where
  "bit_length n = (if n = 0 then 0 else Suc (bit_length (n div 2)))"

declare bit_length.simps [simp del]

text \<open>For \<open>0 < q\<close>: the integer \<open>e\<close> with \<open>2 ^ e \<le> q < 2 ^ (e + 1)\<close>.\<close>

definition floor_log2 :: "rat \<Rightarrow> int" where
  "floor_log2 q =
     (let (a, b) = quotient_of q;
          e0 = int (bit_length (nat a)) - int (bit_length (nat b))
      in if pow2 e0 \<le> q then e0 else e0 - 1)"

text \<open>For \<open>0 < q\<close>: the integer \<open>x\<close> with \<open>10 ^ x \<le> q < 10 ^ (x + 1)\<close>.\<close>

definition floor_log10 :: "rat \<Rightarrow> int" where
  "floor_log10 q =
     (let (a, b) = quotient_of q;
          x0 = int (length (nat_digits (nat a))) - int (length (nat_digits (nat b)))
      in if pow10 x0 \<le> q then x0 else x0 - 1)"

definition round_half_even :: "rat \<Rightarrow> int" where
  "round_half_even q =
     (let f = \<lfloor>q\<rfloor>; r = q - of_int f
      in if r < 1 / 2 then f else if 1 / 2 < r then f + 1 else if even f then f else f + 1)"

text \<open>
  IEEE 754 binary64, round to nearest, ties to even, of a rational \<open>0 \<le> q\<close>:
  53 significant bits, least exponent of the last place \<open>-1074\<close>; \<open>None\<close> when the
  rounded value would reach \<open>2 ^ 1024\<close>.
\<close>

definition round_to_double :: "rat \<Rightarrow> rat option" where
  "round_to_double q =
     (if q = 0 then Some 0
      else let e = floor_log2 q;
               k = max (e - 52) (- 1074);
               v = of_int (round_half_even (q / pow2 k)) * pow2 k
           in if 2 ^ 1024 \<le> v then None else Some v)"

text \<open>\<^verbatim>\<open>float(n)\<close> of a Python int: raises OverflowError when \<open>n\<close> is too large.\<close>

definition float_of_int :: "int \<Rightarrow> py_error + pyfloat" where
  "float_of_int n =
     (case round_to_double (of_int \<bar>n\<bar>) of
        None \<Rightarrow> Inl OverflowError
      | Some v \<Rightarrow> Inr (Finite (if n < 0 then - v else v)))"

definition is_space :: "char \<Rightarrow> bool" where
  "is_space c = ((of_char c :: nat) \<in> {9, 10, 11, 12, 13, 32, 133, 160})"

definition is_digit :: "char \<Rightarrow> bool" where
  "is_digit c = (48 \<le> (of_char c :: nat) \<and> (of_char c :: nat) \<le> 57)"

definition digits_value :: "string \<Rightarrow> nat" where
  "digits_value ds = foldl (\<lambda>a c. 10 * a + (of_char c - 48)) 0 ds"

definition strip :: "string \<Rightarrow> string" where
  "strip s = rev (dropWhile is_space (rev (dropWhile is_space s)))"

text \<open>
  An underscore is allowed only between two digits; the function removes the
  underscores, or fails. The first argument is the previous character.
\<close>

fun remove_underscores :: "char \<Rightarrow> string \<Rightarrow> string option" where
  "remove_underscores prev [] = (if prev = CHR ''_'' then None else Some [])"
| "remove_underscores prev (c # cs) =
     (if c = CHR ''_''
        then (if is_digit prev then remove_underscores c cs else None)
      else if prev = CHR ''_'' \<and> \<not> is_digit c then None
      else map_option ((#) c) (remove_underscores c cs))"

definition split_sign :: "string \<Rightarrow> bool \<times> string" where
  "split_sign s =
     (case s of
        [] \<Rightarrow> (False, [])
      | c # cs \<Rightarrow> if c = CHR ''-'' then (True, cs) else if c = CHR ''+'' then (False, cs) else (False, s))"

text \<open>
  An unsigned decimal literal: digits, an optional point and digits (at least one digit
  in all), an optional exponent \<open>e\<close> or \<open>E\<close> with optional sign and at least one digit.
\<close>

definition parse_exponent :: "string \<Rightarrow> int option" where
  "parse_exponent s =
     (case s of
        [] \<Rightarrow> Some 0
      | c # cs \<Rightarrow>
          if c = CHR ''e'' \<or> c = CHR ''E''
          then (let (neg, ds) = split_sign cs
                in if ds = [] \<or> \<not> list_all is_digit ds then None
                   else Some (if neg then - int (digits_value ds) else int (digits_value ds)))
          else None)"

definition parse_number :: "string \<Rightarrow> rat option" where
  "parse_number s =
     (let ip = takeWhile is_digit s; r1 = dropWhile is_digit s;
          point = (r1 \<noteq> [] \<and> hd r1 = CHR ''.'');
          fp = (if point then takeWhile is_digit (tl r1) else []);
          r2 = (if point then dropWhile is_digit (tl r1) else r1)
      in if ip = [] \<and> fp = [] then None
         else (case parse_exponent r2 of
                 None \<Rightarrow> None
               | Some e \<Rightarrow> Some (of_nat (digits_value (ip @ fp)) * pow10 (e - int (length fp)))))"

text \<open>\<^verbatim>\<open>float(s)\<close> of a Python string: raises ValueError when \<open>s\<close> is not a float literal.\<close>

definition float_of_str :: "string \<Rightarrow> py_error + pyfloat" where
  "float_of_str s =
     (case remove_underscores (CHR 0x00) (strip s) of
        None \<Rightarrow> Inl ValueError
      | Some u \<Rightarrow>
          (let (neg, body) = split_sign u
           in if lower body = ''inf'' \<or> lower body = ''infinity''
                then Inr (if neg then NegInf else PosInf)
              else if lower body = ''nan'' then Inr NaN
              else (case parse_number body of
                      None \<Rightarrow> Inl ValueError
                    | Some q \<Rightarrow>
                        (case round_to_double q of
                           None \<Rightarrow> Inr (if neg then NegInf else PosInf)
                         | Some v \<Rightarrow>
                             Inr (if neg then (if v = 0 then NegZero else Finite (- v))
                                  else Finite v)))))"

text \<open>\<^verbatim>\<open>float(x)\<close> of a decoded JSON value.\<close>

fun py_float :: "json \<Rightarrow> py_error + pyfloat" where
  "py_float JNull = Inl TypeError"
| "py_float (JBool b) = Inr (Finite (if b then 1 else 0))"
| "py_float (JInt n) = float_of_int n"
| "py_float (JFloat x) = Inr x"
| "py_float (JStr s) = float_of_str s"
| "py_float (JList xs) = Inl TypeError"
| "py_float (JDict kvs) = Inl TypeError"

text \<open>\<^verbatim>\<open>x > n\<close> of a float and an int: exact, and false for a NaN.\<close>

fun float_gt :: "pyfloat \<Rightarrow> int \<Rightarrow> bool" where
  "float_gt (Finite q) n = (of_int n < q)"
| "float_gt NegZero n = (n < 0)"
| "float_gt PosInf n = True"
| "float_gt NegInf n = False"
| "float_gt NaN n = False"

text \<open>\<^verbatim>\<open>f'{x:.2f}'\<close>: the exact value rounded to two decimals, ties to even.\<close>

definition two_decimals :: "rat \<Rightarrow> string" where
  "two_decimals q =
     (let n = nat (round_half_even (q * 100))
      in nat_digits (n div 100) @ ''.'' @ [digit_char (n mod 100 div 10), digit_char (n mod 10)])"

fun format_2f :: "pyfloat \<Rightarrow> string" where
  "format_2f (Finite q) = (if q < 0 then ''-'' @ two_decimals (- q) else two_decimals q)"
| "format_2f NegZero = ''-0.00''"
| "format_2f PosInf = ''inf''"
| "format_2f NegInf = ''-inf''"
| "format_2f NaN = ''nan''"

text \<open>
  \<^verbatim>\<open>repr(x)\<close> of a float: the shortest decimal digit string that rounds back to \<open>x\<close>
  (the nearest to \<open>x\<close> among those of that length), in fixed notation when the decimal
  point position is in \<open>-3 .. 16\<close> and in exponent notation otherwise.
\<close>

definition nearest_candidate :: "rat \<Rightarrow> int \<Rightarrow> nat \<Rightarrow> (nat \<times> int) option" where
  "nearest_candidate q x p =
     (let k = x - int p + 1; s = pow10 k;
          lo = nat \<lfloor>q / s\<rfloor>; hi = lo + 1;
          ok_lo = (round_to_double (of_nat lo * s) = Some q);
          ok_hi = (round_to_double (of_nat hi * s) = Some q);
          d_lo = q - of_nat lo * s; d_hi = of_nat hi * s - q
      in if ok_lo \<and> ok_hi then Some (if d_lo < d_hi \<or> (d_lo = d_hi \<and> even lo) then lo else hi, k)
         else if ok_lo then Some (lo, k)
         else if ok_hi then Some (hi, k)
         else None)"

fun shortest_digits :: "rat \<Rightarrow> int \<Rightarrow> nat list \<Rightarrow> nat \<times> int" where
  "shortest_digits q x [] = (nat (round_half_even (q / pow10 (x - 16))), x - 16)"
| "shortest_digits q x (p # ps) =
     (case nearest_candidate q x p of Some r \<Rightarrow> r | None \<Rightarrow> shortest_digits q x ps)"

fun strip_zeros :: "string \<Rightarrow> string" where
  "strip_zeros ds = rev (dropWhile (\<lambda>c. c = CHR ''0'') (rev ds))"

definition format_repr :: "string \<Rightarrow> int \<Rightarrow> string" where
  "format_repr ds decpt =
     (if decpt \<le> - 4 \<or> 16 < decpt
        then [hd ds] @ (if 1 < length ds then ''.'' @ tl ds else [])
             @ ''e'' @ (if decpt - 1 < 0 then ''-'' else ''+'')
             @ (if \<bar>decpt - 1\<bar> < 10 then ''0'' else []) @ nat_digits (nat \<bar>decpt - 1\<bar>)
      else if decpt \<le> 0 then ''0.'' @ replicate (nat (- decpt)) (CHR ''0'') @ ds
      else if int (length ds) \<le> decpt
        then ds @ replicate (nat decpt - length ds) (CHR ''0'') @ ''.0''
      else take (nat decpt) ds @ ''.'' @ drop (nat decpt) ds)"

definition repr_positive :: "rat \<Rightarrow> string" where
  "repr_positive q =
     (let (d, k) = shortest_digits q (floor_log10 q) [1 ..< 18];
          ds = nat_digits d
      in format_repr (strip_zeros ds) (int (length ds) + k))"

fun repr_float :: "pyfloat \<Rightarrow> string" where
  "repr_float (Finite q) =
     (if q = 0 then ''0.0'' else if q < 0 then ''-'' @ repr_positive (- q) else repr_positive q)"
| "repr_float NegZero = ''-0.0''"
| "repr_float PosInf = ''inf''"
| "repr_float NegInf = ''-inf''"
| "repr_float NaN = ''nan''"

subsection \<open>\<^verbatim>\<open>str(data)\<close>, \<^verbatim>\<open>field in data\<close>, \<^verbatim>\<open>data[field]\<close>\<close>

fun py_repr :: "json \<Rightarrow> string" where
  "py_repr JNull = ''None''"
| "py_repr (JBool b) = (if b then ''True'' else ''False'')"
| "py_repr (JInt n) = repr_int n"
| "py_repr (JFloat x) = repr_float x"
| "py_repr (JStr s) = repr_str s"
| "py_repr (JList xs) = ''['' @ join '', '' (map py_repr xs) @ '']''"
| "py_repr (JDict kvs) =
     ''{'' @ join '', '' (map (\<lambda>kv. repr_str (fst kv) @ '': '' @ py_repr (snd kv)) kvs) @ ''}''"

text \<open>\<^verbatim>\<open>str\<close> of a string is the string itself; of any other value it is its \<^verbatim>\<open>repr\<close>.\<close>

fun py_str :: "json \<Rightarrow> string" where
  "py_str (JStr s) = s"
| "py_str v = py_repr v"

text \<open>
  \<^verbatim>\<open>field in data\<close> for a string \<open>field\<close>: key membership on a mapping, substring test
  on a string, element test on a list, TypeError on a value that is not a container.
\<close>

fun py_contains :: "string \<Rightarrow> json \<Rightarrow> py_error + bool" where
  "py_contains field (JDict kvs) = Inr (map_of kvs field \<noteq> None)"
| "py_contains field (JStr s) = Inr (str_contains s field)"
| "py_contains field (JList xs) = Inr (JStr field \<in> set xs)"
| "py_contains field JNull = Inl TypeError"
| "py_contains field (JBool b) = Inl TypeError"
| "py_contains field (JInt n) = Inl TypeError"
| "py_contains field (JFloat x) = Inl TypeError"

text \<open>
  \<^verbatim>\<open>data[field]\<close> for a string \<open>field\<close>: lookup on a mapping (KeyError when absent),
  TypeError on every other value.
\<close>

fun py_getitem :: "json \<Rightarrow> string \<Rightarrow> py_error + json" where
  "py_getitem (JDict kvs) field = (case map_of kvs field of None \<Rightarrow> Inl KeyError | Some v \<Rightarrow> Inr v)"
| "py_getitem v field = Inl TypeError"

section \<open>The audit service\<close>

subsection \<open>Configuration\<close>

definition BANNED_KEYWORDS :: "string list" where
  "BANNED_KEYWORDS =
     [''DROP TABLE'', ''DELETE FROM'', ''refund > 500'', ''angry'', ''unauthorized'',
      ''exec('', ''eval('', ''wasting our time'', ''shut up'', ''idiot'']"

definition MAX_REFUND_AMOUNT :: int where
  "MAX_REFUND_AMOUNT = 500"

subsection \<open>\<^verbatim>\<open>check_for_banned_keywords\<close>\<close>

text \<open>The \<^verbatim>\<open>for keyword in BANNED_KEYWORDS\<close> loop, on the keywords still to try.\<close>

fun keyword_loop :: "string list \<Rightarrow> string \<Rightarrow> bool \<times> string option" where
  "keyword_loop [] data_lower = (False, None)"
| "keyword_loop (keyword # rest) data_lower =
     (if str_contains data_lower (lower keyword) then (True, Some keyword)
      else keyword_loop rest data_lower)"

definition check_for_banned_keywords :: "string \<Rightarrow> bool \<times> string option" where
  "check_for_banned_keywords data_str = keyword_loop BANNED_KEYWORDS (lower data_str)"

subsection \<open>\<^verbatim>\<open>check_refund_amount\<close>\<close>

definition refund_fields :: "string list" where
  "refund_fields = [''refund_amount'', ''refund'', ''amount'']"

text \<open>The clause \<^verbatim>\<open>except (ValueError, TypeError)\<close>.\<close>

definition caught :: "py_error \<Rightarrow> bool" where
  "caught e = (e = ValueError \<or> e = TypeError)"

text \<open>
  The \<^verbatim>\<open>for field in refund_fields\<close> loop, on the fields still to try. The membership
  test is outside the \<^verbatim>\<open>try\<close>; the subscript and \<^verbatim>\<open>float()\<close> are inside it.
\<close>

fun field_loop :: "string list \<Rightarrow> json \<Rightarrow> py_error + bool \<times> pyfloat option" where
  "field_loop [] data = Inr (False, None)"
| "field_loop (field # rest) data =
     (case py_contains field data of
        Inl e \<Rightarrow> Inl e
      | Inr False \<Rightarrow> field_loop rest data
      | Inr True \<Rightarrow>
          (case py_getitem data field of
             Inl e \<Rightarrow> if caught e then field_loop rest data else Inl e
           | Inr v \<Rightarrow>
               (case py_float v of
                  Inl e \<Rightarrow> if caught e then field_loop rest data else Inl e
                | Inr amount \<Rightarrow>
                    if float_gt amount MAX_REFUND_AMOUNT then Inr (True, Some amount)
                    else field_loop rest data)))"

definition check_refund_amount :: "json \<Rightarrow> py_error + bool \<times> pyfloat option" where
  "check_refund_amount data = field_loop refund_fields data"

subsection \<open>\<^verbatim>\<open>audit_request\<close>\<close>

text \<open>
  A response is the JSON object given to \<^verbatim>\<open>jsonify\<close>, as its list of fields, with the
  HTTP status code. The argument of \<open>audit_request\<close> is what \<^verbatim>\<open>request.get_json()\<close>
  returned: \<open>JNull\<close> is Python's \<^verbatim>\<open>None\<close>.
\<close>

type_synonym response = "(string \<times> string) list \<times> nat"

definition blocked :: "string \<Rightarrow> nat \<Rightarrow> response" where
  "blocked reason code = ([(''status'', ''BLOCKED''), (''reason'', reason)], code)"

definition approved :: response where
  "approved = ([(''status'', ''APPROVED'')], 200)"

text \<open>An f-string field \<^verbatim>\<open>{keyword}\<close> prints \<^verbatim>\<open>None\<close> as the text None.\<close>

definition format_str :: "string option \<Rightarrow> string" where
  "format_str k = (case k of None \<Rightarrow> ''None'' | Some s \<Rightarrow> s)"

definition audit_request :: "json \<Rightarrow> py_error + response" where
  "audit_request data =
     (if data = JNull
        then Inr (blocked ''Invalid JSON payload or missing Content-Type header'' 400)
      else
        (let data_str = py_str data;
             (is_banned, keyword) = check_for_banned_keywords data_str
         in if is_banned
              then Inr (blocked (''Banned keyword detected: '' @ [CHR 0x22] @ format_str keyword
                                  @ [CHR 0x22]) 200)
            else
              (case check_refund_amount data of
                 Inl e \<Rightarrow> Inl e
               | Inr (is_blocked, amount) \<Rightarrow>
                   if is_blocked
                     then (case amount of
                             None \<Rightarrow> Inl TypeError
                           | Some a \<Rightarrow>
                               Inr (blocked (''Refund amount $'' @ format_2f a
                                             @ '' exceeds maximum of $''
                                             @ repr_int MAX_REFUND_AMOUNT) 200))
                   else Inr approved)))"

subsection \<open>The globals of the module as explicit state\<close>

text \<open>
  What one call could leave behind for the next is the state of the module: its two
  globals, \<^verbatim>\<open>BANNED_KEYWORDS\<close> (a Python list, which code could change in place) and
  \<^verbatim>\<open>MAX_REFUND_AMOUNT\<close>. To state what a call does to them, the three functions are
  embedded a second time in state-passing style: each takes the globals and returns
  its result together with the globals after the call. A read of a global is a read
  of the state. The source assigns to no global and calls no method that changes the
  list, so no equation below builds a new state.
\<close>

record module_state =
  banned_keywords :: "string list"
  max_refund_amount :: int

text \<open>The state after the module is loaded.\<close>

definition module_globals :: module_state where
  "module_globals =
     \<lparr>banned_keywords = BANNED_KEYWORDS, max_refund_amount = MAX_REFUND_AMOUNT\<rparr>"

definition check_for_banned_keywords_st ::
  "module_state \<Rightarrow> string \<Rightarrow> (bool \<times> string option) \<times> module_state" where
  "check_for_banned_keywords_st g data_str =
     (keyword_loop (banned_keywords g) (lower data_str), g)"

fun field_loop_st ::
  "module_state \<Rightarrow> string list \<Rightarrow> json \<Rightarrow> (py_error + bool \<times> pyfloat option) \<times> module_state"
where
  "field_loop_st g [] data = (Inr (False, None), g)"
| "field_loop_st g (field # rest) data =
     (case py_contains field data of
        Inl e \<Rightarrow> (Inl e, g)
      | Inr False \<Rightarrow> field_loop_st g rest data
      | Inr True \<Rightarrow>
          (case py_getitem data field of
             Inl e \<Rightarrow> if caught e then field_loop_st g rest data else (Inl e, g)
           | Inr v \<Rightarrow>
               (case py_float v of
                  Inl e \<Rightarrow> if caught e then field_loop_st g rest data else (Inl e, g)
                | Inr amount \<Rightarrow>
                    if float_gt amount (max_refund_amount g) then (Inr (True, Some amount), g)
                    else field_loop_st g rest data)))"

definition check_refund_amount_st ::
  "module_state \<Rightarrow> json \<Rightarrow> (py_error + bool \<times> pyfloat option) \<times> module_state" where
  "check_refund_amount_st g data = field_loop_st g refund_fields data"

definition audit_request_st :: "module_state \<Rightarrow> json \<Rightarrow> (py_error + response) \<times> module_state"
where
  "audit_request_st g data =
     (if data = JNull
        then (Inr (blocked ''Invalid JSON payload or missing Content-Type header'' 400), g)
      else
        (let data_str = py_str data;
             ((is_banned, keyword), g1) = check_for_banned_keywords_st g data_str
         in if is_banned
              then (Inr (blocked (''Banned keyword detected: '' @ [CHR 0x22]
                                  @ format_str keyword @ [CHR 0x22]) 200), g1)
            else
              (let (result, g2) = check_refund_amount_st g1 data
               in case result of
                    Inl e \<Rightarrow> (Inl e, g2)
                  | Inr (is_blocked, amount) \<Rightarrow>
                      if is_blocked
                        then (case amount of
                                None \<Rightarrow> (Inl TypeError, g2)
                              | Some a \<Rightarrow>
                                  (Inr (blocked (''Refund amount $'' @ format_2f a
                                                 @ '' exceeds maximum of $''
                                                 @ repr_int (max_refund_amount g2)) 200), g2))
                      else (Inr approved, g2))))"

subsection \<open>Vocabulary of the properties\<close>

text \<open>
  The keyword \<open>k\<close> occurs in the serialized payload: the test
  \<^verbatim>\<open>keyword.lower() in data_lower\<close> of the scanner, on \<^verbatim>\<open>str(data)\<close>.
\<close>

definition occurs_in :: "string \<Rightarrow> json \<Rightarrow> bool" where
  "occurs_in k data = str_contains (lower (py_str data)) (lower k)"

text \<open>
  The field \<open>f\<close> of the payload holds a value that \<^verbatim>\<open>float()\<close> converts to an
  amount greater than \<open>MAX_REFUND_AMOUNT\<close>.
\<close>

definition over_limit :: "json \<Rightarrow> string \<Rightarrow> bool" where
  "over_limit data f =
     (case py_getitem data f of
        Inl e \<Rightarrow> False
      | Inr v \<Rightarrow> (case py_float v of Inl e \<Rightarrow> False | Inr a \<Rightarrow> float_gt a MAX_REFUND_AMOUNT))"

text \<open>
  The field \<open>f\<close> of the payload holds an integer that \<^verbatim>\<open>float()\<close> rejects with
  OverflowError.
\<close>

definition overflows :: "json \<Rightarrow> string \<Rightarrow> bool" where
  "overflows data f =
     (case py_getitem data f of Inl e \<Rightarrow> False | Inr v \<Rightarrow> py_float v = Inl OverflowError)"

subsection \<open>Payloads of the test suite and of the specification's scenarios\<close>

definition scenario_A :: json where
  "scenario_A =
     JDict [(''user'', JStr ''john_doe''), (''action'', JStr ''view_profile''),
            (''refund'', JInt 50)]"

definition scenario_B :: json where
  "scenario_B = JDict [(''query'', JStr ''DROP TABLE users''), (''user'', JStr ''hacker'')]"

definition scenario_E :: json where
  "scenario_E = JDict [(''refund_amount'', JStr ''not_a_number''), (''refund'', JInt 600)]"

definition keyword_and_refund :: json where
  "keyword_and_refund = JDict [(''query'', JStr ''DROP TABLE users''), (''refund'', JInt 600)]"

definition two_aliases :: json where
  "two_aliases = JDict [(''refund_amount'', JInt 100), (''refund'', JInt 600)]"

definition later_alias :: json where
  "later_alias = JDict [(''refund'', JInt 100), (''amount'', JInt 600)]"

definition at_limit :: json where
  "at_limit = JDict [(''amount'', JInt 500)]"

section \<open>Properties\<close>

subsection \<open>The substring test and the keyword loop\<close>

lemmas string_eval = lower_def lower_char_def upper_ascii_def lower_ascii_def repr_str_def
  repr_char_def printable_def repr_int_def nat_digits.simps digit_char_def Let_def

lemma startswith_iff: "startswith s p \<longleftrightarrow> (\<exists>post. s = p @ post)"
  by (induction s p rule: startswith.induct) auto

text \<open>\<open>str_contains\<close> is containment as a contiguous substring.\<close>

lemma str_contains_iff: "str_contains s sub \<longleftrightarrow> (\<exists>pre post. s = pre @ sub @ post)"
proof (induction s)
  case Nil
  then show ?case by auto
next
  case (Cons c cs)
  show ?case
  proof
    assume "str_contains (c # cs) sub"
    then consider "startswith (c # cs) sub" | "str_contains cs sub" by auto
    then show "\<exists>pre post. c # cs = pre @ sub @ post"
    proof cases
      case 1
      then obtain post where "c # cs = sub @ post" by (auto simp: startswith_iff)
      then have "c # cs = [] @ sub @ post" by simp
      then show ?thesis by blast
    next
      case 2
      then obtain pre post where "cs = pre @ sub @ post" using Cons.IH by blast
      then have "c # cs = (c # pre) @ sub @ post" by simp
      then show ?thesis by blast
    qed
  next
    assume "\<exists>pre post. c # cs = pre @ sub @ post"
    then obtain pre post where eq: "c # cs = pre @ sub @ post" by blast
    show "str_contains (c # cs) sub"
    proof (cases pre)
      case Nil
      with eq have "startswith (c # cs) sub" by (auto simp: startswith_iff)
      then show ?thesis by simp
    next
      case (Cons x pre')
      with eq have "cs = pre' @ sub @ post" by simp
      then have "str_contains cs sub" using Cons.IH by blast
      then show ?thesis by simp
    qed
  qed
qed

text \<open>The loop returns the first keyword of the list that occurs, and stops there.\<close>

lemma keyword_loop_hit:
  "\<exists>k\<in>set ks. str_contains d (lower k) \<Longrightarrow>
   \<exists>pre k post. ks = pre @ k # post \<and> (\<forall>k'\<in>set pre. \<not> str_contains d (lower k'))
      \<and> str_contains d (lower k) \<and> keyword_loop ks d = (True, Some k)"
proof (induction ks)
  case Nil
  then show ?case by simp
next
  case (Cons a ks)
  show ?case
  proof (cases "str_contains d (lower a)")
    case True
    then have "a # ks = [] @ a # ks \<and> (\<forall>k'\<in>set []. \<not> str_contains d (lower k'))
      \<and> str_contains d (lower a) \<and> keyword_loop (a # ks) d = (True, Some a)" by simp
    then show ?thesis by blast
  next
    case False
    with Cons.prems have "\<exists>k\<in>set ks. str_contains d (lower k)" by auto
    from Cons.IH[OF this] obtain pre k post where
      h: "ks = pre @ k # post" "\<forall>k'\<in>set pre. \<not> str_contains d (lower k')"
         "str_contains d (lower k)" "keyword_loop ks d = (True, Some k)" by blast
    from h False have "a # ks = (a # pre) @ k # post
      \<and> (\<forall>k'\<in>set (a # pre). \<not> str_contains d (lower k'))
      \<and> str_contains d (lower k) \<and> keyword_loop (a # ks) d = (True, Some k)" by simp
    then show ?thesis by blast
  qed
qed

lemma keyword_loop_miss:
  "\<forall>k\<in>set ks. \<not> str_contains d (lower k) \<Longrightarrow> keyword_loop ks d = (False, None)"
  by (induction ks) auto

lemma none_not_banned: "k \<in> set BANNED_KEYWORDS \<Longrightarrow> \<not> occurs_in k JNull"
  by (auto simp: occurs_in_def BANNED_KEYWORDS_def string_eval)

lemma number_not_banned: "check_for_banned_keywords (py_str (JInt 5)) = (False, None)"
  by (simp add: check_for_banned_keywords_def BANNED_KEYWORDS_def string_eval)

lemma true_not_banned: "check_for_banned_keywords (py_str (JBool True)) = (False, None)"
  by (simp add: check_for_banned_keywords_def BANNED_KEYWORDS_def string_eval)

subsection \<open>The field loop\<close>

lemma field_loop_str: "field_loop fs (JStr s) = Inr (False, None)"
  by (induction fs) (auto simp: caught_def split: bool.splits)

lemma field_loop_list: "field_loop fs (JList xs) = Inr (False, None)"
  by (induction fs) (auto simp: caught_def split: bool.splits)

text \<open>
  \<^verbatim>\<open>float()\<close> raises nothing but TypeError, ValueError and OverflowError, and
  OverflowError only on an integer.
\<close>

lemma py_float_error:
  "py_float v = Inl e \<Longrightarrow> e = TypeError \<or> e = ValueError \<or> e = OverflowError"
  by (cases v)
     (auto simp: float_of_int_def float_of_str_def Let_def
           split: option.splits if_splits prod.splits)

lemma py_float_overflow_int: "py_float v = Inl OverflowError \<Longrightarrow> \<exists>n. v = JInt n"
  by (cases v) (auto simp: float_of_str_def Let_def split: option.splits if_splits prod.splits)

text \<open>One turn of the loop on a mapping.\<close>

lemma field_loop_dict_step:
  "field_loop (f # rest) (JDict kvs) =
     (if overflows (JDict kvs) f then Inl OverflowError
      else if over_limit (JDict kvs) f
        then (case py_getitem (JDict kvs) f of
                Inr v \<Rightarrow> (case py_float v of Inr a \<Rightarrow> Inr (True, Some a) | Inl e \<Rightarrow> Inl e)
              | Inl e \<Rightarrow> Inl e)
      else field_loop rest (JDict kvs))"
  using py_float_error
  by (auto simp: overflows_def over_limit_def caught_def
           split: option.splits sum.splits bool.splits)

lemma field_loop_dict_miss:
  "\<forall>f\<in>set fs. \<not> over_limit (JDict kvs) f \<and> \<not> overflows (JDict kvs) f \<Longrightarrow>
   field_loop fs (JDict kvs) = Inr (False, None)"
proof (induction fs)
  case Nil
  then show ?case by simp
next
  case (Cons f fs)
  then show ?case by (simp only: field_loop_dict_step) simp
qed

lemma field_loop_dict_hit:
  assumes "\<forall>f\<in>set fs. \<not> overflows (JDict kvs) f"
      and "\<exists>f\<in>set fs. over_limit (JDict kvs) f"
  shows "\<exists>pre f post v a. fs = pre @ f # post \<and> (\<forall>g\<in>set pre. \<not> over_limit (JDict kvs) g)
           \<and> map_of kvs f = Some v \<and> py_float v = Inr a \<and> float_gt a MAX_REFUND_AMOUNT
           \<and> field_loop fs (JDict kvs) = Inr (True, Some a)"
  using assms
proof (induction fs)
  case Nil
  then show ?case by simp
next
  case (Cons f fs)
  show ?case
  proof (cases "over_limit (JDict kvs) f")
    case True
    then obtain v a where
      va: "map_of kvs f = Some v" "py_float v = Inr a" "float_gt a MAX_REFUND_AMOUNT"
      by (auto simp: over_limit_def split: option.splits sum.splits)
    from Cons.prems(1) have "\<not> overflows (JDict kvs) f" by simp
    with True va have "field_loop (f # fs) (JDict kvs) = Inr (True, Some a)"
      by (simp only: field_loop_dict_step) simp
    with va have "f # fs = [] @ f # fs \<and> (\<forall>g\<in>set []. \<not> over_limit (JDict kvs) g)
           \<and> map_of kvs f = Some v \<and> py_float v = Inr a \<and> float_gt a MAX_REFUND_AMOUNT
           \<and> field_loop (f # fs) (JDict kvs) = Inr (True, Some a)" by simp
    then show ?thesis by blast
  next
    case False
    with Cons.prems have
      p: "\<forall>f\<in>set fs. \<not> overflows (JDict kvs) f" "\<exists>f\<in>set fs. over_limit (JDict kvs) f"
      by auto
    from Cons.IH[OF p] obtain pre g post v a where
      h: "fs = pre @ g # post" "\<forall>g\<in>set pre. \<not> over_limit (JDict kvs) g"
         "map_of kvs g = Some v" "py_float v = Inr a" "float_gt a MAX_REFUND_AMOUNT"
         "field_loop fs (JDict kvs) = Inr (True, Some a)" by blast
    from Cons.prems(1) have no: "\<not> overflows (JDict kvs) f" by simp
    from False no h(6) have "field_loop (f # fs) (JDict kvs) = Inr (True, Some a)"
      by (simp only: field_loop_dict_step) simp
    with h False have "f # fs = (f # pre) @ g # post
           \<and> (\<forall>g\<in>set (f # pre). \<not> over_limit (JDict kvs) g)
           \<and> map_of kvs g = Some v \<and> py_float v = Inr a \<and> float_gt a MAX_REFUND_AMOUNT
           \<and> field_loop (f # fs) (JDict kvs) = Inr (True, Some a)" by simp
    then show ?thesis by blast
  qed
qed

subsection \<open>Conversions and formats at the amounts of the examples\<close>

lemma round_to_double_100: "round_to_double 100 = Some 100"
  by (simp add: round_to_double_def floor_log2_def bit_length.simps pow2_def
      round_half_even_def Let_def)

lemma round_to_double_500: "round_to_double 500 = Some 500"
  by (simp add: round_to_double_def floor_log2_def bit_length.simps pow2_def
      round_half_even_def Let_def)

lemma round_to_double_600: "round_to_double 600 = Some 600"
  by (simp add: round_to_double_def floor_log2_def bit_length.simps pow2_def
      round_half_even_def Let_def)

lemma float_of_int_examples:
  "float_of_int 100 = Inr (Finite 100)" "float_of_int 500 = Inr (Finite 500)"
  "float_of_int 600 = Inr (Finite 600)"
  by (simp_all add: float_of_int_def round_to_double_100 round_to_double_500
      round_to_double_600)

lemma repr_max: "repr_int MAX_REFUND_AMOUNT = ''500''"
  by (simp add: MAX_REFUND_AMOUNT_def repr_int_def nat_digits.simps digit_char_def)

lemma not_a_number: "float_of_str ''not_a_number'' = Inl ValueError"
  by (simp add: float_of_str_def strip_def is_space_def is_digit_def split_sign_def lower_def
      lower_char_def upper_ascii_def lower_ascii_def parse_number_def)

subsection \<open>The composition in \<open>audit_request\<close>, and the keyword scan of the example payloads\<close>

lemma keyword_loop_False_iff:
  "keyword_loop ks d = (False, None) \<longleftrightarrow> (\<forall>k\<in>set ks. \<not> str_contains d (lower k))"
  by (induction ks) auto

lemma not_banned_iff:
  "check_for_banned_keywords (py_str data) = (False, None)
     \<longleftrightarrow> (\<forall>k\<in>set BANNED_KEYWORDS. \<not> occurs_in k data)"
  by (simp add: check_for_banned_keywords_def occurs_in_def keyword_loop_False_iff)

lemma audit_banned:
  assumes "\<exists>k\<in>set BANNED_KEYWORDS. occurs_in k data"
  shows "\<exists>pre k post. BANNED_KEYWORDS = pre @ k # post \<and> (\<forall>k'\<in>set pre. \<not> occurs_in k' data)
      \<and> occurs_in k data
      \<and> check_for_banned_keywords (py_str data) = (True, Some k)
      \<and> audit_request data =
          Inr (blocked (''Banned keyword detected: '' @ [CHR 0x22] @ k @ [CHR 0x22]) 200)"
proof -
  from assms none_not_banned have nn: "data \<noteq> JNull" by auto
  from assms have "\<exists>k\<in>set BANNED_KEYWORDS. str_contains (lower (py_str data)) (lower k)"
    by (simp add: occurs_in_def)
  from keyword_loop_hit[OF this] obtain pre k post where
    h: "BANNED_KEYWORDS = pre @ k # post"
       "\<forall>k'\<in>set pre. \<not> str_contains (lower (py_str data)) (lower k')"
       "str_contains (lower (py_str data)) (lower k)"
       "keyword_loop BANNED_KEYWORDS (lower (py_str data)) = (True, Some k)" by blast
  from h(4) have c: "check_for_banned_keywords (py_str data) = (True, Some k)"
    by (simp add: check_for_banned_keywords_def)
  with nn have "audit_request data =
      Inr (blocked (''Banned keyword detected: '' @ [CHR 0x22] @ k @ [CHR 0x22]) 200)"
    by (simp add: audit_request_def format_str_def)
  with h c show ?thesis unfolding occurs_in_def by blast
qed

lemma audit_not_banned:
  assumes "data \<noteq> JNull" and "\<forall>k\<in>set BANNED_KEYWORDS. \<not> occurs_in k data"
  shows "audit_request data =
     (case check_refund_amount data of
        Inl e \<Rightarrow> Inl e
      | Inr (is_blocked, amount) \<Rightarrow>
          if is_blocked
          then (case amount of
                  None \<Rightarrow> Inl TypeError
                | Some a \<Rightarrow> Inr (blocked (''Refund amount $'' @ format_2f a
                                           @ '' exceeds maximum of $500'') 200))
          else Inr approved)"
proof -
  from assms(2) have "check_for_banned_keywords (py_str data) = (False, None)"
    by (simp add: not_banned_iff)
  with assms(1) show ?thesis
    by (auto simp add: audit_request_def repr_max split: sum.splits option.splits)
qed

lemma scenario_B_banned: "occurs_in ''DROP TABLE'' scenario_B"
  by (simp add: occurs_in_def scenario_B_def string_eval)

lemma keyword_and_refund_banned: "occurs_in ''DROP TABLE'' keyword_and_refund"
  by (simp add: occurs_in_def keyword_and_refund_def string_eval)

lemma scenario_E_not_banned: "check_for_banned_keywords (py_str scenario_E) = (False, None)"
  by (simp add: check_for_banned_keywords_def BANNED_KEYWORDS_def scenario_E_def string_eval)

lemma two_aliases_not_banned: "check_for_banned_keywords (py_str two_aliases) = (False, None)"
  by (simp add: check_for_banned_keywords_def BANNED_KEYWORDS_def two_aliases_def string_eval)

lemma later_alias_not_banned: "check_for_banned_keywords (py_str later_alias) = (False, None)"
  by (simp add: check_for_banned_keywords_def BANNED_KEYWORDS_def later_alias_def string_eval)

lemma at_limit_not_banned: "check_for_banned_keywords (py_str at_limit) = (False, None)"
  by (simp add: check_for_banned_keywords_def BANNED_KEYWORDS_def at_limit_def string_eval)

lemma null_not_banned: "check_for_banned_keywords (py_str JNull) = (False, None)"
  by (simp add: check_for_banned_keywords_def BANNED_KEYWORDS_def string_eval)


lemma two_decimals_600: "two_decimals 600 = ''600.00''"
  by (simp add: two_decimals_def round_half_even_def Let_def nat_digits.simps digit_char_def)

lemma over_limit_refund_600:
  "map_of kvs ''refund'' = Some (JInt 600) \<Longrightarrow> over_limit (JDict kvs) ''refund''"
  by (simp add: over_limit_def float_of_int_examples MAX_REFUND_AMOUNT_def)

subsection \<open>Payloads that are not containers\<close>

text \<open>
  Claim C8. The claim: for every payload whose top level is not a mapping, the rule
  evaluator returns the result "not violated, no amount" and raises no error.
  The code: on a payload that is null, a boolean or a number, the membership test
  \<^verbatim>\<open>field in data\<close>, which stands outside the \<^verbatim>\<open>try\<close>, raises TypeError, and
  \<open>check_refund_amount\<close> raises it.
\<close>

theorem check_refund_amount_raises_on_scalar:
  "check_refund_amount JNull = Inl TypeError
   \<and> check_refund_amount (JBool b) = Inl TypeError
   \<and> check_refund_amount (JInt n) = Inl TypeError
   \<and> check_refund_amount (JFloat x) = Inl TypeError"
  by (simp add: check_refund_amount_def refund_fields_def)

text \<open>
  Claim C1. The claim: for every decoded JSON value, numbers and booleans at the top
  level included, \<open>audit_request\<close> returns a verdict and never raises.
  The code: on the payload \<open>5\<close> and on the payload \<open>true\<close> no keyword is found, then
  \<open>check_refund_amount\<close> raises TypeError, which \<open>audit_request\<close> does not catch.
\<close>

theorem audit_request_raises_on_scalar:
  "audit_request (JInt 5) = Inl TypeError \<and> audit_request (JBool True) = Inl TypeError"
  using number_not_banned true_not_banned
  by (simp add: audit_request_def check_refund_amount_def refund_fields_def)

text \<open>
  Claim C10. For every payload whose top level is a string or a list, the rule
  evaluator returns "not violated, no amount" and raises nothing, also when a field
  name is a substring of the string or an element of the list: the membership test
  can succeed (as on the string \<^verbatim>\<open>my refund\<close> and on the list \<^verbatim>\<open>['refund']\<close>), the
  subscript with a field name then raises TypeError, and TypeError is caught.
\<close>

theorem string_or_list_payload_no_violation:
  "check_refund_amount (JStr s) = Inr (False, None)
   \<and> check_refund_amount (JList xs) = Inr (False, None)
   \<and> py_getitem (JStr s) f = Inl TypeError \<and> py_getitem (JList xs) f = Inl TypeError
   \<and> caught TypeError
   \<and> py_contains ''refund'' (JStr ''my refund'') = Inr True
   \<and> py_contains ''refund'' (JList [JStr ''refund'']) = Inr True"
  by (simp add: check_refund_amount_def field_loop_str field_loop_list caught_def)

subsection \<open>Banned keywords\<close>

text \<open>
  Claim C3. For every payload whose serialized text contains at least one banned
  phrase as a case-insensitive substring, \<open>audit_request\<close> returns BLOCKED (HTTP 200)
  with the reason \<^verbatim>\<open>Banned keyword detected: "<phrase>"\<close>, where the phrase is the
  earliest one of the policy list that occurs: no phrase before it in the list occurs,
  and the scanner returns that single phrase.
\<close>

theorem banned_keyword_blocks:
  assumes "\<exists>k\<in>set BANNED_KEYWORDS. occurs_in k data"
  shows "\<exists>pre k post. BANNED_KEYWORDS = pre @ k # post \<and> (\<forall>k'\<in>set pre. \<not> occurs_in k' data)
      \<and> occurs_in k data
      \<and> check_for_banned_keywords (py_str data) = (True, Some k)
      \<and> audit_request data =
          Inr (blocked (''Banned keyword detected: '' @ [CHR 0x22] @ k @ [CHR 0x22]) 200)"
  using assms by (rule audit_banned)

theorem banned_keyword_blocks_witness:
  "''DROP TABLE'' \<in> set BANNED_KEYWORDS \<and> occurs_in ''DROP TABLE'' scenario_B
   \<and> audit_request scenario_B =
       Inr (blocked (''Banned keyword detected: '' @ [CHR 0x22] @ ''DROP TABLE'' @ [CHR 0x22]) 200)"
proof -
  have m: "''DROP TABLE'' \<in> set BANNED_KEYWORDS" by (simp add: BANNED_KEYWORDS_def)
  with scenario_B_banned have "\<exists>k\<in>set BANNED_KEYWORDS. occurs_in k scenario_B" by blast
  from banned_keyword_blocks[OF this] obtain pre k post where
    r: "BANNED_KEYWORDS = pre @ k # post" "\<forall>k'\<in>set pre. \<not> occurs_in k' scenario_B"
       "audit_request scenario_B =
          Inr (blocked (''Banned keyword detected: '' @ [CHR 0x22] @ k @ [CHR 0x22]) 200)"
    by blast
  have "pre = []"
  proof (cases pre)
    case Nil
    then show ?thesis .
  next
    case (Cons x xs)
    with r(1) have "x = ''DROP TABLE''" by (simp add: BANNED_KEYWORDS_def)
    with r(2) Cons scenario_B_banned show ?thesis by simp
  qed
  with r(1) have "k = ''DROP TABLE''" by (simp add: BANNED_KEYWORDS_def)
  with r(3) m scenario_B_banned show ?thesis by simp
qed

text \<open>
  Claim C4. For every payload that contains a banned phrase in its serialized text and
  also a refund field with a numeric value greater than 500, \<open>audit_request\<close> returns
  BLOCKED with the banned-keyword reason, and never with the refund reason.
\<close>

theorem keyword_has_priority_over_refund:
  assumes "\<exists>k\<in>set BANNED_KEYWORDS. occurs_in k data"
      and "\<exists>f\<in>set refund_fields. over_limit data f"
  shows "(\<exists>k\<in>set BANNED_KEYWORDS. audit_request data =
            Inr (blocked (''Banned keyword detected: '' @ [CHR 0x22] @ k @ [CHR 0x22]) 200))
       \<and> (\<forall>a. audit_request data \<noteq>
            Inr (blocked (''Refund amount $'' @ format_2f a @ '' exceeds maximum of $''
                          @ repr_int MAX_REFUND_AMOUNT) 200))"
proof -
  from audit_banned[OF assms(1)] obtain pre k post where
    r: "BANNED_KEYWORDS = pre @ k # post"
       "audit_request data =
          Inr (blocked (''Banned keyword detected: '' @ [CHR 0x22] @ k @ [CHR 0x22]) 200)"
    by blast
  have "k \<in> set BANNED_KEYWORDS" unfolding r(1) by simp
  with r(2) have a: "\<exists>k\<in>set BANNED_KEYWORDS. audit_request data =
            Inr (blocked (''Banned keyword detected: '' @ [CHR 0x22] @ k @ [CHR 0x22]) 200)"
    by blast
  from r(2) have b: "\<forall>a. audit_request data \<noteq>
            Inr (blocked (''Refund amount $'' @ format_2f a @ '' exceeds maximum of $''
                          @ repr_int MAX_REFUND_AMOUNT) 200)"
    by (simp add: blocked_def)
  from a b show ?thesis by simp
qed

theorem keyword_has_priority_over_refund_witness:
  "''DROP TABLE'' \<in> set BANNED_KEYWORDS \<and> occurs_in ''DROP TABLE'' keyword_and_refund
   \<and> ''refund'' \<in> set refund_fields \<and> over_limit keyword_and_refund ''refund''
   \<and> audit_request keyword_and_refund \<noteq>
       Inr (blocked (''Refund amount $'' @ format_2f (Finite 600) @ '' exceeds maximum of $''
                     @ repr_int MAX_REFUND_AMOUNT) 200)"
proof -
  have m: "''DROP TABLE'' \<in> set BANNED_KEYWORDS" by (simp add: BANNED_KEYWORDS_def)
  have f: "''refund'' \<in> set refund_fields" by (simp add: refund_fields_def)
  have o: "over_limit keyword_and_refund ''refund''"
    unfolding keyword_and_refund_def by (rule over_limit_refund_600) simp
  from m keyword_and_refund_banned
  have h1: "\<exists>k\<in>set BANNED_KEYWORDS. occurs_in k keyword_and_refund" by blast
  from f o have h2: "\<exists>f\<in>set refund_fields. over_limit keyword_and_refund f" by blast
  from keyword_has_priority_over_refund[OF h1 h2] m keyword_and_refund_banned f o
  show ?thesis by blast
qed

subsection \<open>Refund fields\<close>

lemma two_aliases_check: "check_refund_amount two_aliases = Inr (True, Some (Finite 600))"
  by (simp add: check_refund_amount_def refund_fields_def two_aliases_def
      float_of_int_examples MAX_REFUND_AMOUNT_def)

lemma later_alias_check: "check_refund_amount later_alias = Inr (True, Some (Finite 600))"
  by (simp add: check_refund_amount_def refund_fields_def later_alias_def
      float_of_int_examples MAX_REFUND_AMOUNT_def)

text \<open>
  Claim C7. On a mapping payload, a candidate refund field that is present but whose
  value \<^verbatim>\<open>float()\<close> rejects as not a number (ValueError for a string that is no float
  literal, TypeError for null, a list or a mapping) is skipped, and the loop goes on
  with the next field names. In particular the payload
  \<^verbatim>\<open>{"refund_amount":"not_a_number","refund":600}\<close> is BLOCKED through the field
  \<^verbatim>\<open>refund\<close>, with a reason that mentions 600 and 500.
\<close>

theorem non_numeric_field_is_skipped:
  "(map_of kvs f = Some v \<and> (py_float v = Inl ValueError \<or> py_float v = Inl TypeError)
      \<longrightarrow> field_loop (f # rest) (JDict kvs) = field_loop rest (JDict kvs))
   \<and> audit_request scenario_E =
       Inr (blocked ''Refund amount $600.00 exceeds maximum of $500'' 200)"
proof -
  have a: "map_of kvs f = Some v \<and> (py_float v = Inl ValueError \<or> py_float v = Inl TypeError)
      \<longrightarrow> field_loop (f # rest) (JDict kvs) = field_loop rest (JDict kvs)"
    by (auto simp: caught_def)
  have c: "check_refund_amount scenario_E = Inr (True, Some (Finite 600))"
    by (simp add: check_refund_amount_def refund_fields_def scenario_E_def not_a_number
        caught_def float_of_int_examples MAX_REFUND_AMOUNT_def)
  have n: "scenario_E \<noteq> JNull" by (simp add: scenario_E_def)
  from scenario_E_not_banned have "\<forall>k\<in>set BANNED_KEYWORDS. \<not> occurs_in k scenario_E"
    by (simp add: not_banned_iff)
  from audit_not_banned[OF n this] c have
    "audit_request scenario_E = Inr (blocked ''Refund amount $600.00 exceeds maximum of $500'' 200)"
    by (simp add: two_decimals_600)
  with a show ?thesis by simp
qed

theorem non_numeric_field_is_skipped_witness:
  "map_of [(''refund_amount'', JStr ''not_a_number''), (''refund'', JInt 600)] ''refund_amount''
     = Some (JStr ''not_a_number'')
   \<and> py_float (JStr ''not_a_number'') = Inl ValueError
   \<and> field_loop [''refund_amount'', ''refund'', ''amount'']
        (JDict [(''refund_amount'', JStr ''not_a_number''), (''refund'', JInt 600)])
     = field_loop [''refund'', ''amount'']
        (JDict [(''refund_amount'', JStr ''not_a_number''), (''refund'', JInt 600)])"
  using non_numeric_field_is_skipped
    [of "[(''refund_amount'', JStr ''not_a_number''), (''refund'', JInt 600)]"
        "''refund_amount''" "JStr ''not_a_number''" "[''refund'', ''amount'']"]
  by (simp add: not_a_number)

text \<open>
  Claim C2. The claim: once a candidate field coerces to a number within the limit, the
  evaluator returns "no violation" and examines no later alias. The code has no such
  return: after a within-limit amount the loop goes on with the next field name. On the
  payload \<^verbatim>\<open>{"refund_amount":100,"refund":600}\<close> the first alias holds 100, within the
  limit, and the evaluator reports a violation with the amount 600 of the second alias.
\<close>

theorem within_limit_alias_counterexample:
  "py_getitem two_aliases ''refund_amount'' = Inr (JInt 100)
   \<and> py_float (JInt 100) = Inr (Finite 100)
   \<and> \<not> float_gt (Finite 100) MAX_REFUND_AMOUNT
   \<and> py_getitem two_aliases ''refund'' = Inr (JInt 600)
   \<and> py_float (JInt 600) = Inr (Finite 600)
   \<and> float_gt (Finite 600) MAX_REFUND_AMOUNT
   \<and> check_refund_amount two_aliases = Inr (True, Some (Finite 600))
   \<and> check_refund_amount two_aliases \<noteq> Inr (False, None)"
  by (simp add: two_aliases_check float_of_int_examples MAX_REFUND_AMOUNT_def)
     (simp add: two_aliases_def)

text \<open>
  Claim C2, amended. On a mapping payload, a candidate refund field whose value coerces
  to a number within the limit (not greater than 500) does not end the evaluation: the
  loop goes on with the next field names. In particular, when \<^verbatim>\<open>refund_amount\<close> holds
  a within-limit number and \<^verbatim>\<open>refund\<close> holds a number greater than 500, the evaluator
  reports a violation with the amount of \<^verbatim>\<open>refund\<close>.
\<close>

theorem within_limit_alias_does_not_stop:
  "(map_of kvs f = Some v \<and> py_float v = Inr a \<and> \<not> float_gt a MAX_REFUND_AMOUNT
      \<longrightarrow> field_loop (f # rest) (JDict kvs) = field_loop rest (JDict kvs))
   \<and> (map_of kvs ''refund_amount'' = Some v1 \<and> py_float v1 = Inr a1
        \<and> \<not> float_gt a1 MAX_REFUND_AMOUNT
        \<and> map_of kvs ''refund'' = Some v2 \<and> py_float v2 = Inr a2
        \<and> float_gt a2 MAX_REFUND_AMOUNT
      \<longrightarrow> check_refund_amount (JDict kvs) = Inr (True, Some a2))"
  by (auto simp: check_refund_amount_def refund_fields_def)

theorem within_limit_alias_does_not_stop_witness:
  "map_of [(''refund_amount'', JInt 100), (''refund'', JInt 600)] ''refund_amount'' = Some (JInt 100)
   \<and> py_float (JInt 100) = Inr (Finite 100) \<and> \<not> float_gt (Finite 100) MAX_REFUND_AMOUNT
   \<and> map_of [(''refund_amount'', JInt 100), (''refund'', JInt 600)] ''refund'' = Some (JInt 600)
   \<and> py_float (JInt 600) = Inr (Finite 600) \<and> float_gt (Finite 600) MAX_REFUND_AMOUNT
   \<and> check_refund_amount (JDict [(''refund_amount'', JInt 100), (''refund'', JInt 600)])
       = Inr (True, Some (Finite 600))"
  using within_limit_alias_does_not_stop
    [of "[(''refund_amount'', JInt 100), (''refund'', JInt 600)]" "''refund_amount''"
        "JInt 100" "Finite 100" "[]" "JInt 100" "Finite 100" "JInt 600" "Finite 600"]
  by (simp add: float_of_int_examples MAX_REFUND_AMOUNT_def)

text \<open>
  Claim C5. The claim: on a mapping payload without banned phrase, when a candidate
  field yields a usable amount, a violation is reported if and only if that amount is
  greater than 500. On the payload \<^verbatim>\<open>{"refund":100,"amount":600}\<close> no keyword occurs,
  the candidate field \<^verbatim>\<open>refund\<close> yields the usable amount 100, which is not greater than
  500, and a violation is reported all the same, with the amount 600 of the later alias.
\<close>

theorem usable_amount_counterexample:
  "check_for_banned_keywords (py_str later_alias) = (False, None)
   \<and> ''refund'' \<in> set refund_fields
   \<and> py_getitem later_alias ''refund'' = Inr (JInt 100)
   \<and> py_float (JInt 100) = Inr (Finite 100)
   \<and> \<not> float_gt (Finite 100) MAX_REFUND_AMOUNT
   \<and> check_refund_amount later_alias = Inr (True, Some (Finite 600))"
  by (simp add: later_alias_not_banned later_alias_check float_of_int_examples
      MAX_REFUND_AMOUNT_def refund_fields_def)
     (simp add: later_alias_def)

text \<open>
  Claim C5, amended. For every mapping payload with no banned phrase in its serialized
  text and no candidate field holding an integer too large for \<^verbatim>\<open>float()\<close>, the
  evaluator returns, and it reports a violation if and only if some candidate field
  (\<^verbatim>\<open>refund_amount\<close>, \<^verbatim>\<open>refund\<close>, \<^verbatim>\<open>amount\<close>) holds a value that coerces to an amount
  strictly greater than 500 (the amount 500 itself is no violation). The amount
  reported is that of the first such field in alias order, and \<open>audit_request\<close> returns
  BLOCKED with the reason
  \<^verbatim>\<open>Refund amount $<amount, two decimals> exceeds maximum of $500\<close>.
\<close>

theorem refund_violation_iff_some_alias_over_limit:
  assumes nb: "\<forall>k\<in>set BANNED_KEYWORDS. \<not> occurs_in k (JDict kvs)"
      and no: "\<forall>f\<in>set refund_fields. \<not> overflows (JDict kvs) f"
  shows "(\<exists>violated amount. check_refund_amount (JDict kvs) = Inr (violated, amount)
            \<and> (violated \<longleftrightarrow> (\<exists>f\<in>set refund_fields. over_limit (JDict kvs) f)))
       \<and> ((\<exists>f\<in>set refund_fields. over_limit (JDict kvs) f) \<longrightarrow>
            (\<exists>pre f post v a. refund_fields = pre @ f # post
               \<and> (\<forall>g\<in>set pre. \<not> over_limit (JDict kvs) g)
               \<and> map_of kvs f = Some v \<and> py_float v = Inr a
               \<and> float_gt a MAX_REFUND_AMOUNT
               \<and> check_refund_amount (JDict kvs) = Inr (True, Some a)
               \<and> audit_request (JDict kvs) =
                   Inr (blocked (''Refund amount $'' @ format_2f a
                                 @ '' exceeds maximum of $500'') 200)))
       \<and> (float_gt (Finite q) MAX_REFUND_AMOUNT \<longleftrightarrow> 500 < q)
       \<and> \<not> float_gt (Finite 500) MAX_REFUND_AMOUNT"
proof -
  have nn: "JDict kvs \<noteq> JNull" by simp
  note audit = audit_not_banned[OF nn nb]
  have limit: "(float_gt (Finite q) MAX_REFUND_AMOUNT \<longleftrightarrow> 500 < q)
       \<and> \<not> float_gt (Finite 500) MAX_REFUND_AMOUNT"
    by (simp add: MAX_REFUND_AMOUNT_def)
  show ?thesis
  proof (cases "\<exists>f\<in>set refund_fields. over_limit (JDict kvs) f")
    case True
    from field_loop_dict_hit[OF no True] obtain pre f post v a where
      h: "refund_fields = pre @ f # post" "\<forall>g\<in>set pre. \<not> over_limit (JDict kvs) g"
         "map_of kvs f = Some v" "py_float v = Inr a" "float_gt a MAX_REFUND_AMOUNT"
         "field_loop refund_fields (JDict kvs) = Inr (True, Some a)" by blast
    from h(6) have c: "check_refund_amount (JDict kvs) = Inr (True, Some a)"
      by (simp add: check_refund_amount_def)
    with audit have "audit_request (JDict kvs) =
        Inr (blocked (''Refund amount $'' @ format_2f a @ '' exceeds maximum of $500'') 200)"
      by simp
    with h c True limit show ?thesis by blast
  next
    case False
    with no have "\<forall>f\<in>set refund_fields. \<not> over_limit (JDict kvs) f \<and> \<not> overflows (JDict kvs) f"
      by blast
    from field_loop_dict_miss[OF this] have "check_refund_amount (JDict kvs) = Inr (False, None)"
      by (simp add: check_refund_amount_def)
    with False limit show ?thesis by blast
  qed
qed

theorem refund_violation_iff_some_alias_over_limit_witness:
  "check_for_banned_keywords (py_str two_aliases) = (False, None)
   \<and> \<not> overflows two_aliases ''refund_amount'' \<and> \<not> overflows two_aliases ''refund''
   \<and> \<not> overflows two_aliases ''amount''
   \<and> over_limit two_aliases ''refund''
   \<and> audit_request two_aliases =
       Inr (blocked ''Refund amount $600.00 exceeds maximum of $500'' 200)"
proof -
  have "\<forall>k\<in>set BANNED_KEYWORDS. \<not> occurs_in k two_aliases"
    using two_aliases_not_banned by (simp only: not_banned_iff)
  then have nb: "\<forall>k\<in>set BANNED_KEYWORDS.
      \<not> occurs_in k (JDict [(''refund_amount'', JInt 100), (''refund'', JInt 600)])"
    unfolding two_aliases_def .
  have o: "\<not> overflows two_aliases ''refund_amount''" "\<not> overflows two_aliases ''refund''"
       "\<not> overflows two_aliases ''amount''"
    by (simp_all add: overflows_def two_aliases_def float_of_int_examples)
  then have no: "\<forall>f\<in>set refund_fields. \<not> overflows (JDict [(''refund_amount'', JInt 100), (''refund'', JInt 600)]) f"
    by (simp add: refund_fields_def two_aliases_def)
  have ov: "over_limit two_aliases ''refund''"
    unfolding two_aliases_def by (rule over_limit_refund_600) simp
  then have ex: "\<exists>f\<in>set refund_fields. over_limit (JDict [(''refund_amount'', JInt 100), (''refund'', JInt 600)]) f"
    by (auto simp: refund_fields_def two_aliases_def)
  from refund_violation_iff_some_alias_over_limit[OF nb no] ex obtain a where
    r: "check_refund_amount (JDict [(''refund_amount'', JInt 100), (''refund'', JInt 600)]) = Inr (True, Some a)"
       "audit_request (JDict [(''refund_amount'', JInt 100), (''refund'', JInt 600)]) =
          Inr (blocked (''Refund amount $'' @ format_2f a @ '' exceeds maximum of $500'') 200)"
    by blast
  from r(1) two_aliases_check have "a = Finite 600" by (simp add: two_aliases_def)
  with r(2) have "audit_request two_aliases =
       Inr (blocked ''Refund amount $600.00 exceeds maximum of $500'' 200)"
    by (simp add: two_aliases_def two_decimals_600)
  with two_aliases_not_banned o ov show ?thesis by simp
qed

subsection \<open>Approval\<close>

text \<open>
  Claim C6. The claim: every payload without banned phrase and without refund field
  over the limit is APPROVED. The null payload has neither, and the guard
  \<^verbatim>\<open>if data is None\<close> of \<open>audit_request\<close> answers BLOCKED with HTTP status 400.
\<close>

theorem null_payload_counterexample:
  "check_for_banned_keywords (py_str JNull) = (False, None)
   \<and> \<not> over_limit JNull ''refund_amount'' \<and> \<not> over_limit JNull ''refund''
   \<and> \<not> over_limit JNull ''amount''
   \<and> audit_request JNull =
       Inr (blocked ''Invalid JSON payload or missing Content-Type header'' 400)
   \<and> audit_request JNull \<noteq> Inr approved"
  using null_not_banned
  by (simp add: over_limit_def audit_request_def blocked_def approved_def)

text \<open>
  Claim C6, amended. For every payload whose top level is a mapping, a string or a
  list, with no banned phrase in its serialized text and no candidate refund field
  that holds an amount over the limit or an integer too large for \<^verbatim>\<open>float()\<close>,
  \<open>audit_request\<close> returns APPROVED with HTTP status 200, and the response has the
  field \<^verbatim>\<open>status\<close> and no field \<^verbatim>\<open>reason\<close>. The null payload is BLOCKED as invalid JSON.
\<close>

theorem clean_container_payload_is_approved:
  assumes "data = JDict kvs \<or> data = JStr s \<or> data = JList xs"
      and "\<forall>k\<in>set BANNED_KEYWORDS. \<not> occurs_in k data"
      and "\<forall>f\<in>set refund_fields. \<not> over_limit data f \<and> \<not> overflows data f"
  shows "audit_request data = Inr approved
       \<and> map_of (fst approved) ''reason'' = None
       \<and> map_of (fst approved) ''status'' = Some ''APPROVED''
       \<and> snd approved = 200
       \<and> audit_request JNull =
           Inr (blocked ''Invalid JSON payload or missing Content-Type header'' 400)"
proof -
  from assms(1) have nn: "data \<noteq> JNull" by auto
  from assms(1) have "check_refund_amount data = Inr (False, None)"
  proof (elim disjE)
    assume d: "data = JDict kvs"
    with assms(3) have "\<forall>f\<in>set refund_fields. \<not> over_limit (JDict kvs) f \<and> \<not> overflows (JDict kvs) f"
      by simp
    from field_loop_dict_miss[OF this] d show ?thesis by (simp add: check_refund_amount_def)
  next
    assume "data = JStr s"
    then show ?thesis by (simp add: check_refund_amount_def field_loop_str)
  next
    assume "data = JList xs"
    then show ?thesis by (simp add: check_refund_amount_def field_loop_list)
  qed
  with audit_not_banned[OF nn assms(2)] have "audit_request data = Inr approved" by simp
  then show ?thesis by (simp add: approved_def audit_request_def)
qed

theorem clean_container_payload_is_approved_witness:
  "at_limit = JDict [(''amount'', JInt 500)]
   \<and> check_for_banned_keywords (py_str at_limit) = (False, None)
   \<and> \<not> over_limit at_limit ''refund_amount'' \<and> \<not> over_limit at_limit ''refund''
   \<and> \<not> over_limit at_limit ''amount''
   \<and> \<not> overflows at_limit ''refund_amount'' \<and> \<not> overflows at_limit ''refund''
   \<and> \<not> overflows at_limit ''amount''
   \<and> audit_request at_limit = Inr approved"
proof -
  have d: "at_limit = JDict [(''amount'', JInt 500)] \<or> at_limit = JStr [] \<or> at_limit = JList []"
    by (simp add: at_limit_def)
  have nb: "\<forall>k\<in>set BANNED_KEYWORDS. \<not> occurs_in k at_limit"
    using at_limit_not_banned by (simp add: not_banned_iff)
  have o: "\<not> over_limit at_limit ''refund_amount''" "\<not> over_limit at_limit ''refund''"
       "\<not> over_limit at_limit ''amount''"
       "\<not> overflows at_limit ''refund_amount''" "\<not> overflows at_limit ''refund''"
       "\<not> overflows at_limit ''amount''"
    by (simp_all add: over_limit_def overflows_def at_limit_def float_of_int_examples
        MAX_REFUND_AMOUNT_def)
  then have f: "\<forall>f\<in>set refund_fields. \<not> over_limit at_limit f \<and> \<not> overflows at_limit f"
    by (simp add: refund_fields_def)
  from clean_container_payload_is_approved[OF d nb f] at_limit_not_banned o
  show ?thesis by (simp add: at_limit_def)
qed

subsection \<open>Determinism and the state of the module\<close>

text \<open>No call changes the globals.\<close>

lemma field_loop_st_state: "field_loop_st g fs d = (res, g') \<Longrightarrow> g' = g"
  by (induction fs) (auto split: sum.splits bool.splits if_splits)

text \<open>
  On the globals of the loaded module the state-passing functions compute the results
  of \<open>field_loop\<close> and \<open>audit_request\<close>.
\<close>

lemma field_loop_st_module:
  "field_loop_st module_globals fs d = (field_loop fs d, module_globals)"
  by (induction fs) (auto simp: module_globals_def split: sum.splits bool.splits)

lemma audit_request_st_state: "audit_request_st g d = (r, g') \<Longrightarrow> g' = g"
  by (auto simp: audit_request_st_def check_for_banned_keywords_st_def
        check_refund_amount_st_def Let_def
      split: if_splits prod.splits sum.splits option.splits
      dest: field_loop_st_state)

lemma audit_request_st_module:
  "audit_request_st module_globals d = (audit_request d, module_globals)"
proof -
  have k: "check_for_banned_keywords_st module_globals s
           = (check_for_banned_keywords s, module_globals)" for s
    by (simp add: check_for_banned_keywords_st_def check_for_banned_keywords_def
        module_globals_def)
  have f: "check_refund_amount_st module_globals d
           = (check_refund_amount d, module_globals)"
    by (simp add: check_refund_amount_st_def check_refund_amount_def field_loop_st_module)
  have m: "max_refund_amount module_globals = MAX_REFUND_AMOUNT"
    by (simp add: module_globals_def)
  show ?thesis
    by (auto simp: audit_request_st_def audit_request_def k f m Let_def
        split: prod.splits sum.splits option.splits)
qed

text \<open>
  The verdict does depend on the globals: with an empty keyword list the payload of
  scenario B, BLOCKED under the module's list, is APPROVED.
\<close>

lemma verdict_depends_on_globals:
  "fst (audit_request_st \<lparr>banned_keywords = [], max_refund_amount = 500\<rparr> scenario_B)
     = Inr approved"
  by (simp add: audit_request_st_def check_for_banned_keywords_st_def
      check_refund_amount_st_def refund_fields_def scenario_B_def)

lemma scenario_B_verdict:
  "audit_request scenario_B =
     Inr (blocked (''Banned keyword detected: '' @ [CHR 0x22] @ ''DROP TABLE'' @ [CHR 0x22]) 200)"
  by (simp add: audit_request_def scenario_B_def check_for_banned_keywords_def
      BANNED_KEYWORDS_def format_str_def string_eval)

text \<open>
  Claim C9. Calling \<open>audit_request\<close> twice on an identical payload yields identical
  verdicts, and no state is carried between calls: from any state of the globals, a
  call returns the globals unchanged, a second call on the same payload returns the
  same verdict, and so does a call on that payload after a call on any other payload.
  From the globals of the loaded module the verdict is \<open>audit_request d\<close>.
\<close>

theorem audit_twice_same_verdict:
  assumes "audit_request_st g d = (r1, g1)" and "audit_request_st g1 d = (r2, g2)"
  shows "r1 = r2 \<and> g1 = g \<and> g2 = g
       \<and> (\<forall>d' r' g'. audit_request_st g1 d' = (r', g') \<longrightarrow> audit_request_st g' d = (r1, g))
       \<and> (g = module_globals \<longrightarrow> r1 = audit_request d)"
proof -
  from assms(1) have g1: "g1 = g" by (rule audit_request_st_state)
  with assms have r: "r1 = r2" and g2: "g2 = g" by simp_all
  have between: "\<forall>d' r' g'. audit_request_st g1 d' = (r', g') \<longrightarrow> audit_request_st g' d = (r1, g)"
  proof (intro allI impI)
    fix d' r' g'
    assume "audit_request_st g1 d' = (r', g')"
    then have "g' = g1" by (rule audit_request_st_state)
    with g1 assms(1) show "audit_request_st g' d = (r1, g)" by simp
  qed
  have "g = module_globals \<longrightarrow> r1 = audit_request d"
    using assms(1) by (auto simp: audit_request_st_module)
  with r g1 g2 between show ?thesis by blast
qed

theorem audit_twice_same_verdict_witness:
  "audit_request_st module_globals scenario_B =
     (Inr (blocked (''Banned keyword detected: '' @ [CHR 0x22] @ ''DROP TABLE'' @ [CHR 0x22]) 200),
      module_globals)
   \<and> audit_request_st module_globals JNull =
       (Inr (blocked ''Invalid JSON payload or missing Content-Type header'' 400), module_globals)
   \<and> audit_request scenario_B =
       Inr (blocked (''Banned keyword detected: '' @ [CHR 0x22] @ ''DROP TABLE'' @ [CHR 0x22]) 200)"
proof -
  have h: "audit_request_st module_globals scenario_B =
     (Inr (blocked (''Banned keyword detected: '' @ [CHR 0x22] @ ''DROP TABLE'' @ [CHR 0x22]) 200),
      module_globals)"
    by (simp only: audit_request_st_module scenario_B_verdict)
  have n: "audit_request_st module_globals JNull =
       (Inr (blocked ''Invalid JSON payload or missing Content-Type header'' 400), module_globals)"
    by (simp add: audit_request_st_def)
  from audit_twice_same_verdict[OF h h] n h show ?thesis by simp
qed

end
